theory Spec2Isabelle
  imports Main
begin

section \<open>The crawler of crawler.js as HOL functions\<close>

text \<open>
  The development follows \<^verbatim>\<open>src/crawler.js\<close> function by function. JavaScript
  objects read from JSON are records whose optional properties are \<open>option\<close>s
  (\<open>None\<close> for \<^verbatim>\<open>undefined\<close>), dictionaries are maps, \<^verbatim>\<open>for ... of\<close> loops are
  recursive functions over the list they run through, and a rejected promise that
  nothing catches is the left summand of a sum type.
\<close>

subsection \<open>Strings\<close>

text \<open>
  \<^verbatim>\<open>String.prototype.toLowerCase\<close> on the letters A to Z; every other character is
  kept. \<^verbatim>\<open>String.prototype.includes\<close> is the substring test.
\<close>

definition lowerChar :: "char \<Rightarrow> char" where
  "lowerChar c =
     (case map_of (zip ''ABCDEFGHIJKLMNOPQRSTUVWXYZ'' ''abcdefghijklmnopqrstuvwxyz'') c of
        Some l \<Rightarrow> l
      | None \<Rightarrow> c)"

definition toLowerCase :: "string \<Rightarrow> string" where
  "toLowerCase s = map lowerChar s"

fun startsWith :: "string \<Rightarrow> string \<Rightarrow> bool" where
  "startsWith s [] = True"
| "startsWith [] (p # ps) = False"
| "startsWith (c # cs) (p # ps) = (c = p \<and> startsWith cs ps)"

fun includesStr :: "string \<Rightarrow> string \<Rightarrow> bool" where
  "includesStr [] t = (t = [])"
| "includesStr (c # cs) t = (startsWith (c # cs) t \<or> includesStr cs t)"

text \<open>A string is truthy when it is present and not empty; \<^verbatim>\<open>a || b\<close> on strings.\<close>

definition truthy :: "string option \<Rightarrow> bool" where
  "truthy s = (case s of None \<Rightarrow> False | Some t \<Rightarrow> t \<noteq> [])"

definition orElse :: "string option \<Rightarrow> string option \<Rightarrow> string option" where
  "orElse a b = (if truthy a then a else b)"

definition orEmpty :: "string option \<Rightarrow> string" where
  "orEmpty s = (case s of None \<Rightarrow> [] | Some t \<Rightarrow> t)"

text \<open>A number or string property inside a template literal.\<close>

definition interpolate :: "string option \<Rightarrow> string" where
  "interpolate s = (case s of None \<Rightarrow> ''undefined'' | Some t \<Rightarrow> t)"

fun digits :: "nat \<Rightarrow> string" where
  "digits n =
     (if n < 10 then [''0123456789'' ! n]
      else digits (n div 10) @ [''0123456789'' ! (n mod 10)])"

definition numberToString :: "int \<Rightarrow> string" where
  "numberToString i = (if i < 0 then CHR ''-'' # digits (nat (- i)) else digits (nat i))"

subsection \<open>Data\<close>

text \<open>
  teams.json:
  \<^verbatim>\<open>{ teams: { name: { keywords } }, match_combinations: { "A vs B": { keywords } } }\<close>.
  The property \<^verbatim>\<open>keywords\<close> is the field \<open>keywordsOf\<close>.
\<close>

record team_info =
  keywordsOf :: "string list option"

record teams_data =
  teams :: "string \<rightharpoonup> team_info"
  match_combinations :: "(string \<rightharpoonup> team_info) option"

text \<open>spielplan.json: matchdays, each with its number and its matches.\<close>

record fixture =
  home :: string
  away :: string
  date :: string
  searchStart :: "string option"

record matchday_entry =
  matchday :: int
  matches :: "fixture list"

record spielplan =
  matchdays :: "matchday_entry list"

text \<open>
  An element of \<^verbatim>\<open>matchesToSearch\<close>:
  \<^verbatim>\<open>{ matchday: matchday.matchday, ...match, matchKey }\<close>.
\<close>

record candidate = fixture +
  ofMatchday :: int
  matchKey :: string

text \<open>
  A search result of the API. Every property may be absent. The properties
  \<^verbatim>\<open>show\<close> and \<^verbatim>\<open>date\<close> are the fields \<open>showOf\<close> and \<open>dateOf\<close>, and
  \<^verbatim>\<open>show.title\<close> is \<open>showTitle\<close>.
\<close>

record show_info =
  showTitle :: "string option"

record clip =
  title :: "string option"
  description :: "string option"
  showOf :: "show_info option"
  dateOf :: "string option"
  validFrom :: "string option"
  publishedDate :: "string option"
  duration :: "int option"
  urn :: "string option"

text \<open>
  links.json. Time stamps are kept as time values (milliseconds since the epoch). The
  properties \<^verbatim>\<open>title\<close>, \<^verbatim>\<open>urn\<close> and \<^verbatim>\<open>type\<close> of a link are the fields
  \<open>linkTitle\<close>, \<open>linkUrn\<close> and \<open>linkType\<close>, and \<^verbatim>\<open>matches\<close> is \<open>linkMatches\<close>.
\<close>

datatype video_type = Standalone | Sendung

record resolved_link =
  url :: "string option"
  foundAt :: int
  linkTitle :: "string option"
  linkUrn :: "string option"
  linkType :: "video_type option"

record link_store =
  lastUpdated :: int
  linkMatches :: "string \<rightharpoonup> resolved_link"

subsection \<open>The host: clock, date parser and time zone\<close>

text \<open>
  What the JavaScript runtime supplies and the repository does not define:
  \<^item> \<open>dateParse s\<close> is the time value of \<^verbatim>\<open>new Date(s)\<close>, \<open>None\<close> for an invalid date
    (time value NaN);
  \<^item> \<open>tzaOfUtc t\<close> is the offset of local time (in milliseconds) at the instant \<open>t\<close>,
    \<open>tzaOfLocal l\<close> the offset at the local time value \<open>l\<close> (ECMAScript's
    \<^verbatim>\<open>LocalTZA(t, true)\<close> and \<^verbatim>\<open>LocalTZA(l, false)\<close>);
  \<^item> \<open>now\<close> is the time value of \<^verbatim>\<open>new Date()\<close>, read once for a run.
\<close>

record host =
  dateParse :: "string \<Rightarrow> int option"
  tzaOfUtc :: "int \<Rightarrow> int"
  tzaOfLocal :: "int \<Rightarrow> int"
  now :: int

definition msPerDay :: int where
  "msPerDay = 1000 * 60 * 60 * 24"

text \<open>
  \<^verbatim>\<open>d.setHours(0, 0, 0, 0)\<close>: the time value of the start of the local day of \<open>t\<close>
  (\<^verbatim>\<open>UTC(MakeDate(Day(LocalTime(t)), 0))\<close>). An invalid date stays invalid.
\<close>

definition setHours0 :: "host \<Rightarrow> int \<Rightarrow> int" where
  "setHours0 h t =
     (let localDay = ((t + tzaOfUtc h t) div msPerDay) * msPerDay
      in localDay - tzaOfLocal h localDay)"

subsection \<open>Loading\<close>

datatype 'a json_file = Missing | Unparseable | Parsed 'a

definition loadJSON :: "'a json_file \<Rightarrow> 'a option" where
  "loadJSON f = (case f of Parsed x \<Rightarrow> Some x | _ \<Rightarrow> None)"

subsection \<open>The search call\<close>

text \<open>
  What one \<^verbatim>\<open>fetch\<close> does: the promise rejects (transport failure), the response is
  not ok, reading the body as JSON rejects, or the body is an object whose
  \<^verbatim>\<open>searchResultMediaList\<close> may be absent. Nothing in \<^verbatim>\<open>searchVideos\<close> catches a
  rejection, so it leaves the function as \<open>Inl\<close>.
\<close>

datatype response = FetchRejects | NotOk | JsonRejects | Body "clip list option"

datatype failure = LoadFailed | Uncaught

definition searchVideos :: "response \<Rightarrow> failure + clip list" where
  "searchVideos r =
     (case r of
        FetchRejects \<Rightarrow> Inl Uncaught
      | NotOk \<Rightarrow> Inr []
      | JsonRejects \<Rightarrow> Inl Uncaught
      | Body None \<Rightarrow> Inr []
      | Body (Some l) \<Rightarrow> Inr l)"

subsection \<open>The checks on a clip\<close>

definition findTeamInText :: "string \<Rightarrow> string \<Rightarrow> teams_data \<Rightarrow> bool" where
  "findTeamInText text teamName teamsData =
     (let textLower = toLowerCase text
      in (case teams teamsData teamName of
            None \<Rightarrow> False
          | Some teamInfo \<Rightarrow>
              (case keywordsOf teamInfo of
                 None \<Rightarrow> False
               | Some kws \<Rightarrow> list_ex (\<lambda>keyword. includesStr textLower (toLowerCase keyword)) kws))
         \<or> includesStr textLower (toLowerCase teamName))"

text \<open>
  \<^verbatim>\<open>diffDays\<close> is the quotient of the difference of two time values by 86400000;
  time values are integers, so \<^verbatim>\<open>diffDays >= 0 && diffDays <= 2\<close> is the comparison of
  the difference with 0 and with two days of milliseconds. A comparison with NaN is false.
\<close>

definition isVideoDateValid :: "host \<Rightarrow> clip \<Rightarrow> string \<Rightarrow> bool" where
  "isVideoDateValid h video matchDate =
     (let videoDateStr = orElse (orElse (dateOf video) (validFrom video)) (publishedDate video)
      in if \<not> truthy videoDateStr then False
         else (case (dateParse h (orEmpty videoDateStr), dateParse h matchDate) of
                 (Some videoDate, Some matchDateObj) \<Rightarrow>
                   (let diffMs = setHours0 h videoDate - setHours0 h matchDateObj
                    in 0 \<le> diffMs \<and> diffMs \<le> 2 * msPerDay)
               | _ \<Rightarrow> False))"

definition MIN_DURATION_MS :: int where
  "MIN_DURATION_MS = 90 * 1000"

definition isVideoLongEnough :: "clip \<Rightarrow> bool" where
  "isVideoLongEnough video =
     (let d = (case duration video of None \<Rightarrow> 0 | Some n \<Rightarrow> n)
      in d \<ge> MIN_DURATION_MS)"

definition TITLE_BLACKLIST :: "string list" where
  "TITLE_BLACKLIST =
     [''trainer'', ''coach'', ''interview'', ''pressekonferenz'', ''vorstellung'',
      ''bilanz'', ''analyse'', ''vorschau'', ''reaktion'', ''stimmen'']"

definition isNotBlacklisted :: "clip \<Rightarrow> bool" where
  "isNotBlacklisted video =
     (let t = toLowerCase (orEmpty (title video))
      in \<not> list_ex (\<lambda>word. includesStr t word) TITLE_BLACKLIST)"

subsection \<open>Keywords\<close>

definition getAllKeywords :: "string \<Rightarrow> teams_data \<Rightarrow> string list" where
  "getAllKeywords teamName teamsData =
     (case teams teamsData teamName of
        None \<Rightarrow> [teamName]
      | Some teamInfo \<Rightarrow>
          (case keywordsOf teamInfo of
             None \<Rightarrow> [teamName]
           | Some kws \<Rightarrow> if length kws > 0 then kws else [teamName]))"

definition getDerbyKeywords :: "string \<Rightarrow> string \<Rightarrow> teams_data \<Rightarrow> string list" where
  "getDerbyKeywords homeTeam awayTeam teamsData =
     (case match_combinations teamsData of
        None \<Rightarrow> []
      | Some combos \<Rightarrow>
          (let key1 = homeTeam @ '' vs '' @ awayTeam;
               key2 = awayTeam @ '' vs '' @ homeTeam;
               combo = (case combos key1 of Some c \<Rightarrow> Some c | None \<Rightarrow> combos key2)
           in case combo of
                None \<Rightarrow> []
              | Some c \<Rightarrow> (case keywordsOf c of None \<Rightarrow> [] | Some kws \<Rightarrow> kws)))"

text \<open>
  \<^verbatim>\<open>for (const kw of kws) if (!acc.includes(kw)) acc.push(kw)\<close>; with an empty
  \<open>acc\<close> this is also the order in which \<^verbatim>\<open>[...new Set(kws)]\<close> lists its elements.
\<close>

fun pushNew :: "string list \<Rightarrow> string list \<Rightarrow> string list" where
  "pushNew acc [] = acc"
| "pushNew acc (kw # kws) = pushNew (if kw \<in> set acc then acc else acc @ [kw]) kws"

definition firstOf :: "string list \<Rightarrow> string" where
  "firstOf l = (case l of [] \<Rightarrow> ''undefined'' | k # _ \<Rightarrow> k)"

text \<open>The list \<^verbatim>\<open>combinedSearches\<close> that \<^verbatim>\<open>crawl\<close> builds for one match.\<close>

definition combinedSearches :: "teams_data \<Rightarrow> string \<Rightarrow> string \<Rightarrow> string list" where
  "combinedSearches teamsData homeTeam awayTeam =
     (let homeKeywords = getAllKeywords homeTeam teamsData;
          awayKeywords = getAllKeywords awayTeam teamsData;
          derbyKeywords = getDerbyKeywords homeTeam awayTeam teamsData;
          allKeywords = pushNew [] (homeKeywords @ awayKeywords)
      in pushNew ([firstOf homeKeywords @ '' '' @ firstOf awayKeywords] @ derbyKeywords)
           allKeywords)"

subsection \<open>Scanning the results of one query\<close>

definition showTitleOf :: "clip \<Rightarrow> string" where
  "showTitleOf video = (case showOf video of None \<Rightarrow> [] | Some s \<Rightarrow> orEmpty (showTitle s))"

definition fullText :: "clip \<Rightarrow> string" where
  "fullText video =
     orEmpty (title video) @ '' '' @ orEmpty (description video) @ '' '' @ showTitleOf video"

text \<open>
  The condition \<^verbatim>\<open>(homeFound || awayFound) && dateValid && longEnough\<close> under which
  \<^verbatim>\<open>crawl\<close> looks at the show of a clip.
\<close>

definition isAcceptable :: "host \<Rightarrow> teams_data \<Rightarrow> candidate \<Rightarrow> clip \<Rightarrow> bool" where
  "isAcceptable h teamsData m video =
     (let homeFound = findTeamInText (fullText video) (home m) teamsData;
          awayFound = findTeamInText (fullText video) (away m) teamsData;
          dateValid = isVideoDateValid h video (date m);
          longEnough = isVideoLongEnough video
      in (homeFound \<or> awayFound) \<and> dateValid \<and> longEnough)"

text \<open>The body of the loop over \<^verbatim>\<open>results\<close>, up to its \<^verbatim>\<open>break\<close>.\<close>

definition scanStep ::
  "host \<Rightarrow> teams_data \<Rightarrow> candidate \<Rightarrow> clip option \<Rightarrow> clip option \<Rightarrow> clip
     \<Rightarrow> clip option \<times> clip option" where
  "scanStep h teamsData m standaloneMatch sendungMatch video =
     (if isAcceptable h teamsData m video then
        (if showTitleOf video = ''Sport-Clip'' \<and> standaloneMatch = None
           then (Some video, sendungMatch)
         else if includesStr (showTitleOf video) ''Super League'' \<and> sendungMatch = None
           then (standaloneMatch, Some video)
         else (standaloneMatch, sendungMatch))
      else (standaloneMatch, sendungMatch))"

fun scanResults ::
  "host \<Rightarrow> teams_data \<Rightarrow> candidate \<Rightarrow> clip option \<Rightarrow> clip option \<Rightarrow> clip list
     \<Rightarrow> clip option \<times> clip option" where
  "scanResults h teamsData m standaloneMatch sendungMatch [] = (standaloneMatch, sendungMatch)"
| "scanResults h teamsData m standaloneMatch sendungMatch (video # rest) =
     (case scanStep h teamsData m standaloneMatch sendungMatch video of
        (Some s, sendungMatch') \<Rightarrow> (Some s, sendungMatch')
      | (None, sendungMatch') \<Rightarrow> scanResults h teamsData m None sendungMatch' rest)"

text \<open>
  What the lines after the scan assign to \<^verbatim>\<open>foundVideo\<close> and \<^verbatim>\<open>videoType\<close> when
  \<^verbatim>\<open>foundVideo\<close> was still \<^verbatim>\<open>null\<close>.
\<close>

definition queryWinner ::
  "host \<Rightarrow> teams_data \<Rightarrow> candidate \<Rightarrow> clip list \<Rightarrow> (clip \<times> video_type) option" where
  "queryWinner h teamsData m results =
     (case scanResults h teamsData m None None results of
        (Some s, _) \<Rightarrow> Some (s, Standalone)
      | (None, Some b) \<Rightarrow> Some (b, Sendung)
      | (None, None) \<Rightarrow> None)"

subsection \<open>The loop over the queries of one match\<close>

text \<open>
  \<open>fetch n q\<close> is what the \<open>n\<close>-th call of \<^verbatim>\<open>fetch\<close> of the run (counted from 0) does
  when it is made with query \<open>q\<close>; \<open>issued\<close> lists the queries sent so far.
\<close>

fun searchLoop ::
  "host \<Rightarrow> teams_data \<Rightarrow> candidate \<Rightarrow> (nat \<Rightarrow> string \<Rightarrow> response)
     \<Rightarrow> (clip \<times> video_type) option \<Rightarrow> string list \<Rightarrow> string list
     \<Rightarrow> failure + ((clip \<times> video_type) option \<times> string list)" where
  "searchLoop h teamsData m fetch foundVideo issued [] = Inr (foundVideo, issued)"
| "searchLoop h teamsData m fetch foundVideo issued (keyword # rest) =
     (if foundVideo \<noteq> None then Inr (foundVideo, issued)
      else case searchVideos (fetch (length issued) keyword) of
             Inl e \<Rightarrow> Inl e
           | Inr results \<Rightarrow>
               searchLoop h teamsData m fetch (queryWinner h teamsData m results)
                 (issued @ [keyword]) rest)"

subsection \<open>Which matches are searched\<close>

datatype jsnum = NaN | Num int

definition MAX_SEARCH_HOURS :: int where
  "MAX_SEARCH_HOURS = 6"

text \<open>\<^verbatim>\<open>links.matches[matchKey] && links.matches[matchKey].url\<close>\<close>

definition hasLink :: "link_store \<Rightarrow> string \<Rightarrow> bool" where
  "hasLink links key = (case linkMatches links key of None \<Rightarrow> False | Some l \<Rightarrow> truthy (url l))"

definition makeKey :: "int \<Rightarrow> string \<Rightarrow> string \<Rightarrow> string" where
  "makeKey md homeTeam awayTeam = numberToString md @ ''_'' @ homeTeam @ '' - '' @ awayTeam"

definition toCandidate :: "int \<Rightarrow> fixture \<Rightarrow> string \<Rightarrow> candidate" where
  "toCandidate md match key =
     \<lparr>home = home match, away = away match, date = date match,
      searchStart = searchStart match, ofMatchday = md, matchKey = key\<rparr>"

text \<open>\<^verbatim>\<open>now >= searchTime && now <= searchEndTime\<close>; false when the date is invalid.\<close>

definition inSearchWindow :: "host \<Rightarrow> string \<Rightarrow> bool" where
  "inSearchWindow h s =
     (case dateParse h s of
        None \<Rightarrow> False
      | Some searchTime \<Rightarrow>
          (let searchEndTime = searchTime + MAX_SEARCH_HOURS * 60 * 60 * 1000
           in now h \<ge> searchTime \<and> now h \<le> searchEndTime))"

text \<open>\<^verbatim>\<open>testMatchday !== null && matchday.matchday !== testMatchday\<close>\<close>

definition otherMatchday :: "jsnum option \<Rightarrow> int \<Rightarrow> bool" where
  "otherMatchday testMatchday md =
     (case testMatchday of None \<Rightarrow> False | Some NaN \<Rightarrow> True | Some (Num n) \<Rightarrow> md \<noteq> n)"

fun matchLoop ::
  "host \<Rightarrow> link_store \<Rightarrow> jsnum option \<Rightarrow> int \<Rightarrow> fixture list \<Rightarrow> candidate list" where
  "matchLoop h links testMatchday md [] = []"
| "matchLoop h links testMatchday md (match # rest) =
     (let key = makeKey md (home match) (away match)
      in if hasLink links key then matchLoop h links testMatchday md rest
         else if testMatchday \<noteq> None
           then toCandidate md match key # matchLoop h links testMatchday md rest
         else if truthy (searchStart match) \<and> inSearchWindow h (orEmpty (searchStart match))
           then toCandidate md match key # matchLoop h links testMatchday md rest
         else matchLoop h links testMatchday md rest)"

fun matchdayLoop ::
  "host \<Rightarrow> link_store \<Rightarrow> jsnum option \<Rightarrow> matchday_entry list \<Rightarrow> candidate list" where
  "matchdayLoop h links testMatchday [] = []"
| "matchdayLoop h links testMatchday (md # rest) =
     (if otherMatchday testMatchday (matchday md) then matchdayLoop h links testMatchday rest
      else matchLoop h links testMatchday (matchday md) (matches md)
             @ matchdayLoop h links testMatchday rest)"

definition getMatchesToSearch ::
  "host \<Rightarrow> spielplan \<Rightarrow> link_store \<Rightarrow> jsnum option \<Rightarrow> candidate list" where
  "getMatchesToSearch h plan links testMatchday =
     matchdayLoop h links testMatchday (matchdays plan)"

subsection \<open>The run\<close>

definition buildVideoUrl :: "string option \<Rightarrow> string" where
  "buildVideoUrl u = ''https://www.srf.ch/play/tv/-/video/-?urn='' @ interpolate u"

record run_state =
  links :: link_store
  foundCount :: nat
  issued :: "string list"

definition newLink :: "host \<Rightarrow> clip \<Rightarrow> video_type \<Rightarrow> resolved_link" where
  "newLink h foundVideo videoType =
     \<lparr>url = Some (buildVideoUrl (urn foundVideo)), foundAt = now h,
      linkTitle = title foundVideo, linkUrn = urn foundVideo, linkType = Some videoType\<rparr>"

definition storeLink :: "link_store \<Rightarrow> string \<Rightarrow> resolved_link \<Rightarrow> link_store" where
  "storeLink ls key l = ls\<lparr>linkMatches := (linkMatches ls)(key \<mapsto> l)\<rparr>"

text \<open>The body of the loop over \<^verbatim>\<open>matchesToSearch\<close>, and the loop.\<close>

definition processMatch ::
  "host \<Rightarrow> teams_data \<Rightarrow> (nat \<Rightarrow> string \<Rightarrow> response) \<Rightarrow> run_state \<Rightarrow> candidate
     \<Rightarrow> failure + run_state" where
  "processMatch h teamsData fetch st m =
     (case searchLoop h teamsData m fetch None (issued st)
             (combinedSearches teamsData (home m) (away m)) of
        Inl e \<Rightarrow> Inl e
      | Inr (None, sent) \<Rightarrow> Inr (st\<lparr>issued := sent\<rparr>)
      | Inr (Some (foundVideo, videoType), sent) \<Rightarrow>
          Inr \<lparr>links = storeLink (links st) (matchKey m) (newLink h foundVideo videoType),
               foundCount = foundCount st + 1, issued = sent\<rparr>)"

fun crawlLoop ::
  "host \<Rightarrow> teams_data \<Rightarrow> (nat \<Rightarrow> string \<Rightarrow> response) \<Rightarrow> run_state \<Rightarrow> candidate list
     \<Rightarrow> failure + run_state" where
  "crawlLoop h teamsData fetch st [] = Inr st"
| "crawlLoop h teamsData fetch st (m # rest) =
     (case processMatch h teamsData fetch st m of
        Inl e \<Rightarrow> Inl e
      | Inr st' \<Rightarrow> crawlLoop h teamsData fetch st' rest)"

text \<open>
  The outcome of a run that ends normally: what \<^verbatim>\<open>saveJSON\<close> wrote to links.json
  (\<open>None\<close> when it was not called) and the queries sent. \<open>Inl\<close> is a run ended by
  \<^verbatim>\<open>process.exit(1)\<close>. The command line is taken as the value of \<^verbatim>\<open>testMatchday\<close>
  it sets.
\<close>

record run_result =
  written :: "link_store option"
  queries :: "string list"

definition crawl ::
  "host \<Rightarrow> teams_data json_file \<Rightarrow> spielplan json_file \<Rightarrow> link_store json_file
     \<Rightarrow> jsnum option \<Rightarrow> (nat \<Rightarrow> string \<Rightarrow> response) \<Rightarrow> failure + run_result" where
  "crawl h teamsFile spielplanFile linksFile testMatchday fetch =
     (case (loadJSON teamsFile, loadJSON spielplanFile) of
        (Some teamsData, Some plan) \<Rightarrow>
          (let links0 = (case loadJSON linksFile of
                           None \<Rightarrow> \<lparr>lastUpdated = now h, linkMatches = Map.empty\<rparr>
                         | Some l \<Rightarrow> l);
               matchesToSearch = getMatchesToSearch h plan links0 testMatchday
           in if length matchesToSearch = 0 then Inr \<lparr>written = None, queries = []\<rparr>
              else case crawlLoop h teamsData fetch
                          \<lparr>links = links0, foundCount = 0, issued = []\<rparr> matchesToSearch of
                     Inl e \<Rightarrow> Inl e
                   | Inr st \<Rightarrow>
                       Inr \<lparr>written = (if foundCount st > 0
                                        then Some ((links st)\<lparr>lastUpdated := now h\<rparr>)
                                        else None),
                            queries = issued st\<rparr>)
      | _ \<Rightarrow> Inl LoadFailed)"

section \<open>Notions used in the statements\<close>

text \<open>
  A clip that the scan would take as the standalone match, and one it would take as the
  fallback from a broadcast, when the respective slot is still empty.
\<close>

definition standaloneEligible :: "host \<Rightarrow> teams_data \<Rightarrow> candidate \<Rightarrow> clip \<Rightarrow> bool" where
  "standaloneEligible h teamsData m video =
     (isAcceptable h teamsData m video \<and> showTitleOf video = ''Sport-Clip'')"

definition broadcastEligible :: "host \<Rightarrow> teams_data \<Rightarrow> candidate \<Rightarrow> clip \<Rightarrow> bool" where
  "broadcastEligible h teamsData m video =
     (isAcceptable h teamsData m video \<and> showTitleOf video \<noteq> ''Sport-Clip''
      \<and> includesStr (showTitleOf video) ''Super League'')"

text \<open>A query that is answered and none of whose results is taken.\<close>

definition quiet :: "host \<Rightarrow> teams_data \<Rightarrow> candidate \<Rightarrow> response \<Rightarrow> bool" where
  "quiet h teamsData m r =
     (case searchVideos r of
        Inl e \<Rightarrow> False
      | Inr results \<Rightarrow> queryWinner h teamsData m results = None)"

text \<open>The first keyword of a team, and the elements of a list in order of first occurrence.\<close>

definition primaryKeyword :: "teams_data \<Rightarrow> string \<Rightarrow> string" where
  "primaryKeyword teamsData teamName = firstOf (getAllKeywords teamName teamsData)"

definition firstOccurrences :: "'a list \<Rightarrow> 'a list" where
  "firstOccurrences xs = rev (remdups (rev xs))"

text \<open>The matches of one matchday that have no link yet, as candidates.\<close>

definition unresolvedOf :: "link_store \<Rightarrow> matchday_entry \<Rightarrow> candidate list" where
  "unresolvedOf ls md =
     map (\<lambda>f. toCandidate (matchday md) f (makeKey (matchday md) (home f) (away f)))
       (filter (\<lambda>f. \<not> hasLink ls (makeKey (matchday md) (home f) (away f))) (matches md))"

text \<open>
  The gate a match has to pass besides having no link: in test mode its matchday is the
  chosen one, otherwise now lies in the six hours from its search start.
\<close>

definition passesGate :: "host \<Rightarrow> jsnum option \<Rightarrow> int \<Rightarrow> fixture \<Rightarrow> bool" where
  "passesGate h testMatchday md f =
     (if testMatchday = None
        then truthy (searchStart f) \<and> inSearchWindow h (orEmpty (searchStart f))
      else \<not> otherMatchday testMatchday md)"

definition gatedOf :: "host \<Rightarrow> jsnum option \<Rightarrow> matchday_entry \<Rightarrow> candidate list" where
  "gatedOf h testMatchday md =
     map (\<lambda>f. toCandidate (matchday md) f (makeKey (matchday md) (home f) (away f)))
       (filter (passesGate h testMatchday (matchday md)) (matches md))"

text \<open>The store a run starts from when links.json could not be loaded.\<close>

definition freshStore :: "host \<Rightarrow> link_store" where
  "freshStore h = \<lparr>lastUpdated = now h, linkMatches = Map.empty\<rparr>"

text \<open>The date string the date check reads, and the number of the local day of an instant.\<close>

definition videoDateStr :: "clip \<Rightarrow> string option" where
  "videoDateStr video = orElse (orElse (dateOf video) (validFrom video)) (publishedDate video)"

definition localDayOf :: "host \<Rightarrow> int \<Rightarrow> int" where
  "localDayOf h t = (t + tzaOfUtc h t) div msPerDay"

section \<open>Example data\<close>

text \<open>
  A host on UTC at 2024-03-10 19:00 UTC, the same host ten days later, and a host on
  Swiss time, where summer time (two hours ahead of UTC instead of one) lasted from
  2024-03-31 01:00 UTC to 2024-10-27 01:00 UTC.
\<close>

definition utcHost :: host where
  "utcHost =
     \<lparr>dateParse = map_of
        [(''2024-03-09'', 1709942400000), (''2024-03-10'', 1710028800000),
         (''2024-03-12'', 1710201600000), (''2024-03-13'', 1710288000000),
         (''2024-03-10T18:00:00Z'', 1710093600000),
         (''2024-03-16T18:00:00Z'', 1710612000000)],
      tzaOfUtc = (\<lambda>t. 0), tzaOfLocal = (\<lambda>t. 0), now = 1710097200000\<rparr>"

definition lateHost :: host where
  "lateHost = utcHost\<lparr>now := 1710892800000\<rparr>"

definition zurichHost :: host where
  "zurichHost =
     \<lparr>dateParse = map_of
        [(''2024-10-26'', 1729900800000), (''2024-10-28T10:00:00+01:00'', 1730106000000)],
      tzaOfUtc = (\<lambda>t. if 1711846800000 \<le> t \<and> t < 1729990800000 then 7200000 else 3600000),
      tzaOfLocal = (\<lambda>l. if 1711854000000 \<le> l \<and> l < 1729998000000 then 7200000 else 3600000),
      now = 1730109600000\<rparr>"

definition exTeams :: teams_data where
  "exTeams =
     \<lparr>teams = [''FC A'' \<mapsto> \<lparr>keywordsOf = Some [''FC A'', ''Club A'']\<rparr>,
               ''FC B'' \<mapsto> \<lparr>keywordsOf = Some [''FC B'']\<rparr>],
      match_combinations = None\<rparr>"

definition derbyTeams :: teams_data where
  "derbyTeams =
     \<lparr>teams = [''FCZ'' \<mapsto> \<lparr>keywordsOf = Some [''FCZ'']\<rparr>,
               ''GC'' \<mapsto> \<lparr>keywordsOf = Some [''GC'']\<rparr>],
      match_combinations =
        Some [''FCZ vs GC'' \<mapsto> \<lparr>keywordsOf = Some [''Derby'', ''FCZ GC'']\<rparr>]\<rparr>"

definition fixtureAB :: fixture where
  "fixtureAB = \<lparr>home = ''FC A'', away = ''FC B'', date = ''2024-03-10'',
                searchStart = Some ''2024-03-10T18:00:00Z''\<rparr>"

definition fixtureCD :: fixture where
  "fixtureCD = \<lparr>home = ''FC C'', away = ''FC D'', date = ''2024-03-10'',
                searchStart = Some ''2024-03-16T18:00:00Z''\<rparr>"

definition fixtureBA :: fixture where
  "fixtureBA = \<lparr>home = ''FC B'', away = ''FC A'', date = ''2024-03-12'',
                searchStart = None\<rparr>"

definition exPlan :: spielplan where
  "exPlan =
     \<lparr>matchdays = [\<lparr>matchday = 5, matches = [fixtureAB, fixtureCD]\<rparr>,
                   \<lparr>matchday = 6, matches = [fixtureBA]\<rparr>]\<rparr>"

definition matchAB :: candidate where
  "matchAB = toCandidate 5 fixtureAB ''5_FC A - FC B''"

definition matchCD :: candidate where
  "matchCD = toCandidate 5 fixtureCD ''5_FC C - FC D''"

definition matchDst :: candidate where
  "matchDst =
     \<lparr>home = ''FC A'', away = ''FC B'', date = ''2024-10-26'', searchStart = None,
      ofMatchday = 12, matchKey = ''12_FC A - FC B''\<rparr>"

definition highlightClip :: clip where
  "highlightClip =
     \<lparr>title = Some ''FC A - FC B Highlights'', description = None,
      showOf = Some \<lparr>showTitle = Some ''Sport-Clip''\<rparr>,
      dateOf = Some ''2024-03-10'', validFrom = None, publishedDate = None,
      duration = Some 95000, urn = Some ''urn:srf:video:1''\<rparr>"

definition broadcastClip :: clip where
  "broadcastClip =
     \<lparr>title = Some ''Runde 5'', description = Some ''Mit FC A und FC B'',
      showOf = Some \<lparr>showTitle = Some ''Super League - Highlights''\<rparr>,
      dateOf = None, validFrom = Some ''2024-03-12'', publishedDate = None,
      duration = Some 600000, urn = Some ''urn:srf:video:2''\<rparr>"

definition interviewClip :: clip where
  "interviewClip =
     \<lparr>title = Some ''FC A: Trainer im Interview'', description = None,
      showOf = Some \<lparr>showTitle = Some ''Sport-Clip''\<rparr>,
      dateOf = Some ''2024-03-10'', validFrom = None, publishedDate = None,
      duration = Some 95000, urn = Some ''urn:srf:video:3''\<rparr>"

definition shortClip :: clip where
  "shortClip = highlightClip\<lparr>duration := Some 45000, urn := Some ''urn:srf:video:4''\<rparr>"

definition noDurationClip :: clip where
  "noDurationClip = highlightClip\<lparr>duration := None, urn := Some ''urn:srf:video:5''\<rparr>"

definition dstClip :: clip where
  "dstClip =
     \<lparr>title = Some ''FC A - FC B Highlights'', description = None,
      showOf = Some \<lparr>showTitle = Some ''Sport-Clip''\<rparr>,
      dateOf = Some ''2024-10-28T10:00:00+01:00'', validFrom = None, publishedDate = None,
      duration = Some 95000, urn = Some ''urn:srf:video:6''\<rparr>"

definition exLink :: resolved_link where
  "exLink =
     \<lparr>url = Some ''https://www.srf.ch/play/tv/-/video/-?urn=urn:srf:video:1'',
      foundAt = 1710097200000, linkTitle = Some ''FC A - FC B Highlights'',
      linkUrn = Some ''urn:srf:video:1'', linkType = Some Standalone\<rparr>"

definition exLinks :: link_store where
  "exLinks = \<lparr>lastUpdated = 1710097200000, linkMatches = [''5_FC A - FC B'' \<mapsto> exLink]\<rparr>"

text \<open>
  Four behaviours of the search endpoint: the first query of a match is refused and
  the query ``FC A'' has results; every query has an empty body; the first call of the
  run is rejected; the only result is an interview.
\<close>

definition secondQueryFetch :: "nat \<Rightarrow> string \<Rightarrow> response" where
  "secondQueryFetch n q =
     (if q = ''FC A'' then Body (Some [broadcastClip, highlightClip, shortClip]) else NotOk)"

definition silentFetch :: "nat \<Rightarrow> string \<Rightarrow> response" where
  "silentFetch n q = Body None"

definition rejectFirstFetch :: "nat \<Rightarrow> string \<Rightarrow> response" where
  "rejectFirstFetch n q = (if n = 0 then FetchRejects else Body (Some [highlightClip]))"

definition interviewFetch :: "nat \<Rightarrow> string \<Rightarrow> response" where
  "interviewFetch n q = Body (Some [interviewClip])"

definition startState :: run_state where
  "startState = \<lparr>links = freshStore utcHost, foundCount = 0, issued = []\<rparr>"

section \<open>The scan of one result list\<close>

lemma scanStep_standalone:
  "standaloneEligible h td m v \<Longrightarrow> scanStep h td m None se v = (Some v, se)"
  by (simp add: scanStep_def standaloneEligible_def)

lemma scanStep_other:
  "\<not> standaloneEligible h td m v \<Longrightarrow>
   scanStep h td m None se v =
     (None, if se = None \<and> broadcastEligible h td m v then Some v else se)"
  by (auto simp add: scanStep_def standaloneEligible_def broadcastEligible_def)

lemma scanResults_no_standalone:
  "\<forall>x\<in>set xs. \<not> standaloneEligible h td m x \<Longrightarrow>
   scanResults h td m None se (xs @ ys) =
     scanResults h td m None
       (case se of None \<Rightarrow> find (broadcastEligible h td m) xs | Some b \<Rightarrow> Some b) ys"
proof (induction xs arbitrary: se)
  case Nil
  then show ?case by (simp split: option.splits)
next
  case (Cons x xs)
  then show ?case
    by (cases se) (simp_all add: scanStep_other)
qed

lemma scanResults_at_standalone:
  "standaloneEligible h td m v \<Longrightarrow> scanResults h td m None se (v # ys) = (Some v, se)"
  by (simp add: scanStep_standalone)

lemma scanResults_sound:
  "scanResults h td m None se rs = (sa', se') \<Longrightarrow>
     (case sa' of None \<Rightarrow> True | Some v \<Rightarrow> v \<in> set rs \<and> standaloneEligible h td m v)
   \<and> (se' = se \<or> (\<exists>b\<in>set rs. se' = Some b \<and> broadcastEligible h td m b))"
proof (induction rs arbitrary: se)
  case Nil
  then show ?case by simp
next
  case (Cons x rs)
  show ?case
  proof (cases "standaloneEligible h td m x")
    case True
    with Cons.prems show ?thesis by (auto simp add: scanStep_standalone)
  next
    case False
    with Cons.prems have
      "scanResults h td m None
         (if se = None \<and> broadcastEligible h td m x then Some x else se) rs = (sa', se')"
      by (simp add: scanStep_other)
    from Cons.IH[OF this] show ?thesis
      by (auto split: option.splits if_splits)
  qed
qed

lemma queryWinner_acceptable:
  assumes w: "queryWinner h td m rs = Some (v, t)"
  shows "v \<in> set rs \<and> isAcceptable h td m v"
proof -
  obtain sa se where s: "scanResults h td m None None rs = (sa, se)" by force
  from scanResults_sound[OF s] w s show ?thesis
    by (auto simp add: queryWinner_def standaloneEligible_def broadcastEligible_def
             split: option.splits)
qed

text \<open>
  C5. In the results of one query, let \<open>v\<close> be the first clip that passes the checks and
  belongs to the show ``Sport-Clip''. Then the scan ends at \<open>v\<close>: its outcome is \<open>v\<close> as the
  standalone match together with the first broadcast clip among the clips before \<open>v\<close> as
  the remembered fallback, whatever clips \<open>ys\<close> follow \<open>v\<close>; and the query's winner is \<open>v\<close>
  with type Standalone, also when a broadcast clip came before it.
\<close>

theorem standalone_ends_scan:
  assumes "\<forall>x\<in>set xs. \<not> standaloneEligible h td m x"
    and "standaloneEligible h td m v"
  shows "scanResults h td m None None (xs @ v # ys)
           = (Some v, find (broadcastEligible h td m) xs)
       \<and> queryWinner h td m (xs @ v # ys) = Some (v, Standalone)"
proof -
  have "scanResults h td m None None (xs @ v # ys)
          = scanResults h td m None (find (broadcastEligible h td m) xs) (v # ys)"
    using assms(1) scanResults_no_standalone[of xs h td m None "v # ys"] by simp
  also have "\<dots> = (Some v, find (broadcastEligible h td m) xs)"
    using assms(2) by (rule scanResults_at_standalone)
  finally have scan: "scanResults h td m None None (xs @ v # ys)
          = (Some v, find (broadcastEligible h td m) xs)" .
  then show ?thesis by (simp add: queryWinner_def)
qed

theorem standalone_ends_scan_witness:
  "broadcastEligible utcHost exTeams matchAB broadcastClip
   \<and> standaloneEligible utcHost exTeams matchAB highlightClip
   \<and> scanResults utcHost exTeams matchAB None None [broadcastClip, highlightClip, shortClip]
       = (Some highlightClip, Some broadcastClip)
   \<and> queryWinner utcHost exTeams matchAB [broadcastClip, highlightClip, shortClip]
       = Some (highlightClip, Standalone)"
proof -
  have b: "broadcastEligible utcHost exTeams matchAB broadcastClip" by code_simp
  have nb: "\<not> standaloneEligible utcHost exTeams matchAB broadcastClip" by code_simp
  have s: "standaloneEligible utcHost exTeams matchAB highlightClip" by code_simp
  have pre: "\<forall>x\<in>set [broadcastClip]. \<not> standaloneEligible utcHost exTeams matchAB x"
    using nb by simp
  from standalone_ends_scan[OF pre s, of "[shortClip]"] b s show ?thesis by simp
qed

text \<open>
  C9. A clip whose duration is absent or below 90000 ms fails the length check and
  with it the condition under which a clip is considered at all, whatever its other
  fields are; such a clip is never the winner of a query.
\<close>

theorem short_clip_never_acceptable:
  assumes "duration video = None \<or> (\<exists>d. duration video = Some d \<and> d < 90000)"
  shows "\<not> isVideoLongEnough video
       \<and> \<not> isAcceptable h td m video
       \<and> queryWinner h td m results \<noteq> Some (video, t)"
proof -
  from assms have short: "\<not> isVideoLongEnough video"
    by (auto simp add: isVideoLongEnough_def MIN_DURATION_MS_def)
  then have na: "\<not> isAcceptable h td m video"
    by (simp add: isAcceptable_def)
  with queryWinner_acceptable[of h td m results video t]
  have "queryWinner h td m results \<noteq> Some (video, t)" by blast
  with short na show ?thesis by simp
qed

theorem short_clip_never_acceptable_witness:
  "duration shortClip = Some 45000 \<and> duration noDurationClip = None
   \<and> \<not> isAcceptable utcHost exTeams matchAB shortClip
   \<and> \<not> isAcceptable utcHost exTeams matchAB noDurationClip
   \<and> queryWinner utcHost exTeams matchAB [shortClip, noDurationClip] \<noteq> Some (shortClip, Standalone)"
proof -
  have d1: "duration shortClip = Some 45000" by (simp add: shortClip_def)
  have d2: "duration noDurationClip = None" by (simp add: noDurationClip_def)
  have h1: "duration shortClip = None \<or> (\<exists>d. duration shortClip = Some d \<and> d < 90000)"
    using d1 by simp
  have h2: "duration noDurationClip = None
              \<or> (\<exists>d. duration noDurationClip = Some d \<and> d < 90000)"
    using d2 by simp
  from short_clip_never_acceptable[OF h1, of utcHost exTeams matchAB "[shortClip, noDurationClip]" Standalone]
       short_clip_never_acceptable[OF h2, of utcHost exTeams matchAB "[]" Standalone] d1 d2
  show ?thesis by simp
qed

section \<open>The matches that are searched\<close>

lemma matchLoop_candidates:
  "c \<in> set (matchLoop h ls t md fs) \<Longrightarrow>
     \<not> hasLink ls (matchKey c) \<and> matchKey c = makeKey (ofMatchday c) (home c) (away c)
     \<and> ofMatchday c = md"
  by (induction fs) (auto simp add: Let_def toCandidate_def split: if_splits)

lemma matchdayLoop_candidates:
  "c \<in> set (matchdayLoop h ls t mds) \<Longrightarrow>
     \<not> hasLink ls (matchKey c) \<and> matchKey c = makeKey (ofMatchday c) (home c) (away c)
     \<and> \<not> otherMatchday t (ofMatchday c)"
  by (induction mds) (auto split: if_splits dest: matchLoop_candidates)

text \<open>
  C3. If the store has an entry with a non-empty url under the key of a fixture
  (matchday, home, away), then no element of the list that \<^verbatim>\<open>getMatchesToSearch\<close>
  returns carries that key or is that fixture, in normal mode and in test mode, at any
  time: the fixture is not searched again.
\<close>

theorem found_never_candidate:
  assumes "linkMatches ls (makeKey md homeTeam awayTeam) = Some l"
    and "url l = Some u" and "u \<noteq> []"
  shows "\<forall>c \<in> set (getMatchesToSearch h plan ls t).
           matchKey c \<noteq> makeKey md homeTeam awayTeam
           \<and> \<not> (ofMatchday c = md \<and> home c = homeTeam \<and> away c = awayTeam)"
proof
  fix c assume c: "c \<in> set (getMatchesToSearch h plan ls t)"
  from assms have found: "hasLink ls (makeKey md homeTeam awayTeam)"
    by (simp add: hasLink_def truthy_def)
  from c have "c \<in> set (matchdayLoop h ls t (matchdays plan))"
    by (simp add: getMatchesToSearch_def)
  from matchdayLoop_candidates[OF this] found
  show "matchKey c \<noteq> makeKey md homeTeam awayTeam
           \<and> \<not> (ofMatchday c = md \<and> home c = homeTeam \<and> away c = awayTeam)"
    by auto
qed

theorem found_never_candidate_witness:
  "linkMatches exLinks (makeKey 5 ''FC A'' ''FC B'') = Some exLink
   \<and> url exLink = Some ''https://www.srf.ch/play/tv/-/video/-?urn=urn:srf:video:1''
   \<and> makeKey 5 ''FC A'' ''FC B'' \<notin> matchKey ` set (getMatchesToSearch utcHost exPlan exLinks None)
   \<and> makeKey 5 ''FC A'' ''FC B''
       \<notin> matchKey ` set (getMatchesToSearch utcHost exPlan exLinks (Some (Num 5)))"
proof -
  have k: "makeKey 5 ''FC A'' ''FC B'' = ''5_FC A - FC B''" by code_simp
  have l: "linkMatches exLinks (makeKey 5 ''FC A'' ''FC B'') = Some exLink"
    unfolding k by (simp add: exLinks_def)
  have u: "url exLink = Some ''https://www.srf.ch/play/tv/-/video/-?urn=urn:srf:video:1''"
    by (simp add: exLink_def)
  have n: "''https://www.srf.ch/play/tv/-/video/-?urn=urn:srf:video:1'' \<noteq> []" by simp
  from found_never_candidate[OF l u n, of utcHost exPlan None]
       found_never_candidate[OF l u n, of utcHost exPlan "Some (Num 5)"]
  have "makeKey 5 ''FC A'' ''FC B'' \<notin> matchKey ` set (getMatchesToSearch utcHost exPlan exLinks None)"
    and "makeKey 5 ''FC A'' ''FC B''
           \<notin> matchKey ` set (getMatchesToSearch utcHost exPlan exLinks (Some (Num 5)))"
    by (auto simp add: image_iff)
  with l u show ?thesis by (intro conjI)
qed

lemma matchLoop_test:
  "matchLoop h ls (Some n) md fs =
     map (\<lambda>f. toCandidate md f (makeKey md (home f) (away f)))
       (filter (\<lambda>f. \<not> hasLink ls (makeKey md (home f) (away f))) fs)"
  by (induction fs) (simp_all add: Let_def)

lemma matchdayLoop_test:
  "matchdayLoop h ls (Some (Num d)) mds =
     concat (map (unresolvedOf ls) (filter (\<lambda>md. matchday md = d) mds))"
  by (induction mds) (simp_all add: otherMatchday_def matchLoop_test unresolvedOf_def)

text \<open>
  C8. In test mode for matchday \<open>d\<close> the list of matches to search consists of the
  matches without a link of the matchdays numbered \<open>d\<close>, in the order of the schedule,
  and of nothing else. Neither the clock nor any \<^verbatim>\<open>searchStart\<close> enters: the right-hand
  side does not depend on the host.
\<close>

theorem test_mode_candidates:
  "getMatchesToSearch h plan ls (Some (Num d)) =
     concat (map (unresolvedOf ls) (filter (\<lambda>md. matchday md = d) (matchdays plan)))"
  by (simp add: getMatchesToSearch_def matchdayLoop_test)

theorem test_mode_candidates_witness:
  "getMatchesToSearch utcHost exPlan (freshStore utcHost) (Some (Num 5)) = [matchAB, matchCD]
   \<and> getMatchesToSearch utcHost exPlan exLinks (Some (Num 5)) = [matchCD]
   \<and> getMatchesToSearch utcHost exPlan exLinks None = []"
proof -
  have a: "concat (map (unresolvedOf (freshStore utcHost))
             (filter (\<lambda>md. matchday md = 5) (matchdays exPlan))) = [matchAB, matchCD]"
    by code_simp
  have b: "concat (map (unresolvedOf exLinks)
             (filter (\<lambda>md. matchday md = 5) (matchdays exPlan))) = [matchCD]"
    by code_simp
  have c: "getMatchesToSearch utcHost exPlan exLinks None = []"
    by code_simp
  from test_mode_candidates[of utcHost exPlan "freshStore utcHost" 5]
       test_mode_candidates[of utcHost exPlan exLinks 5] a b c
  show ?thesis by simp
qed

section \<open>The queries of a match\<close>

lemma remdups_snoc:
  "remdups (ys @ [x]) = filter (\<lambda>y. y \<noteq> x) (remdups ys) @ [x]"
  by (induction ys) auto

lemma firstOccurrences_Nil: "firstOccurrences [] = []"
  by (simp add: firstOccurrences_def)

lemma firstOccurrences_Cons:
  "firstOccurrences (x # xs) = x # filter (\<lambda>y. y \<noteq> x) (firstOccurrences xs)"
  by (simp add: firstOccurrences_def remdups_snoc rev_filter)

lemma distinct_firstOccurrences: "distinct (firstOccurrences xs)"
  by (simp add: firstOccurrences_def)

lemma pushNew_order:
  "pushNew acc xs = acc @ filter (\<lambda>y. y \<notin> set acc) (firstOccurrences xs)"
proof (induction xs arbitrary: acc)
  case Nil
  show ?case by (simp add: firstOccurrences_Nil)
next
  case (Cons x xs)
  show ?case
  proof (cases "x \<in> set acc")
    case True
    have "filter (\<lambda>y. y \<notin> set acc) (filter (\<lambda>y. y \<noteq> x) (firstOccurrences xs))
            = filter (\<lambda>y. y \<notin> set acc) (firstOccurrences xs)"
      using True by (auto intro: filter_cong)
    with True Cons.IH[of acc] show ?thesis
      by (simp add: firstOccurrences_Cons)
  next
    case False
    have "filter (\<lambda>y. y \<notin> set acc) (filter (\<lambda>y. y \<noteq> x) (firstOccurrences xs))
            = filter (\<lambda>y. y \<notin> set (acc @ [x])) (firstOccurrences xs)"
      by (auto intro: filter_cong)
    with False Cons.IH[of "acc @ [x]"] show ?thesis
      by (simp add: firstOccurrences_Cons)
  qed
qed

lemma distinct_pushNew: "distinct (pushNew acc xs) \<longleftrightarrow> distinct acc"
  by (auto simp add: pushNew_order distinct_firstOccurrences)

lemma primaryKeyword_eq:
  "primaryKeyword td t =
     (case teams td t of
        None \<Rightarrow> t
      | Some ti \<Rightarrow> (case keywordsOf ti of None \<Rightarrow> t | Some [] \<Rightarrow> t | Some (k # _) \<Rightarrow> k))"
  by (simp add: primaryKeyword_def getAllKeywords_def firstOf_def
           split: option.splits list.splits)

text \<open>
  C4, as the code has it. The list of queries of a match is: the first keyword of the
  home team (the team's name when it has no keywords), a space and the first keyword of
  the away team; then the derby keywords that \<^verbatim>\<open>getDerbyKeywords\<close> returns, all of
  them and unchecked; then the keywords of home and away in order of first occurrence,
  leaving out those already in the list. The list is free of duplicates exactly when
  its first query followed by the derby keywords is.
\<close>

theorem combinedSearches_structure:
  "combinedSearches td a b =
     (primaryKeyword td a @ '' '' @ primaryKeyword td b) # getDerbyKeywords a b td
       @ filter (\<lambda>kw. kw \<notin> set ((primaryKeyword td a @ '' '' @ primaryKeyword td b)
                                  # getDerbyKeywords a b td))
           (firstOccurrences (getAllKeywords a td @ getAllKeywords b td))
   \<and> (distinct (combinedSearches td a b) \<longleftrightarrow>
        distinct ((primaryKeyword td a @ '' '' @ primaryKeyword td b) # getDerbyKeywords a b td))
   \<and> primaryKeyword td a =
       (case teams td a of
          None \<Rightarrow> a
        | Some ti \<Rightarrow> (case keywordsOf ti of None \<Rightarrow> a | Some [] \<Rightarrow> a | Some (k # _) \<Rightarrow> k))"
proof -
  have fo: "pushNew [] (getAllKeywords a td @ getAllKeywords b td)
              = firstOccurrences (getAllKeywords a td @ getAllKeywords b td)"
    using pushNew_order[of "[]"] by simp
  have idem: "firstOccurrences (firstOccurrences xs) = firstOccurrences xs"
    for xs :: "string list"
    by (simp add: firstOccurrences_def distinct_remdups_id)
  have eq: "combinedSearches td a b =
      pushNew ((primaryKeyword td a @ '' '' @ primaryKeyword td b) # getDerbyKeywords a b td)
        (firstOccurrences (getAllKeywords a td @ getAllKeywords b td))"
    by (simp add: combinedSearches_def Let_def primaryKeyword_def fo)
  have struct: "combinedSearches td a b =
     (primaryKeyword td a @ '' '' @ primaryKeyword td b) # getDerbyKeywords a b td
       @ filter (\<lambda>kw. kw \<notin> set ((primaryKeyword td a @ '' '' @ primaryKeyword td b)
                                  # getDerbyKeywords a b td))
           (firstOccurrences (getAllKeywords a td @ getAllKeywords b td))"
    unfolding eq pushNew_order idem by simp
  have dist: "distinct (combinedSearches td a b) \<longleftrightarrow>
        distinct ((primaryKeyword td a @ '' '' @ primaryKeyword td b) # getDerbyKeywords a b td)"
    unfolding eq by (rule distinct_pushNew)
  from struct dist primaryKeyword_eq[of td a] show ?thesis by blast
qed

theorem combinedSearches_structure_witness:
  "combinedSearches exTeams ''FC A'' ''FC B'' = [''FC A FC B'', ''FC A'', ''Club A'', ''FC B'']
   \<and> distinct (combinedSearches exTeams ''FC A'' ''FC B'')
   \<and> combinedSearches derbyTeams ''GC'' ''FCZ'' = [''GC FCZ'', ''Derby'', ''FCZ GC'', ''GC'', ''FCZ'']"
proof -
  have d: "getDerbyKeywords ''FC A'' ''FC B'' exTeams = []" by code_simp
  have p: "primaryKeyword exTeams ''FC A'' @ '' '' @ primaryKeyword exTeams ''FC B'' = ''FC A FC B''"
    by code_simp
  have r: "filter (\<lambda>kw. kw \<noteq> ''FC A FC B'')
             (firstOccurrences (getAllKeywords ''FC A'' exTeams @ getAllKeywords ''FC B'' exTeams))
           = [''FC A'', ''Club A'', ''FC B'']"
    by code_simp
  from combinedSearches_structure[of exTeams "''FC A''" "''FC B''"]
  have "combinedSearches exTeams ''FC A'' ''FC B''
          = [''FC A FC B'', ''FC A'', ''Club A'', ''FC B'']"
    unfolding d p by (simp add: r)
  moreover have "combinedSearches derbyTeams ''GC'' ''FCZ''
          = [''GC FCZ'', ''Derby'', ''FCZ GC'', ''GC'', ''FCZ'']"
    by code_simp
  ultimately show ?thesis by simp
qed

text \<open>
  C4, as stated, fails where a derby keyword repeats the first query: for FCZ against
  GC with the derby keywords ``Derby'' and ``FCZ GC'' the list is
  FCZ GC, Derby, FCZ GC, FCZ, GC.
\<close>

theorem derby_keyword_repeats_query:
  "\<not> distinct (combinedSearches derbyTeams ''FCZ'' ''GC'')"
  by code_simp

section \<open>The loop over the queries\<close>

lemma searchLoop_found:
  "searchLoop h td m fetch (Some w) sent qs = Inr (Some w, sent)"
  by (cases qs) simp_all

lemma searchLoop_quiet:
  "quiet h td m (fetch (length sent) q) \<Longrightarrow>
   searchLoop h td m fetch None sent (q # qs) = searchLoop h td m fetch None (sent @ [q]) qs"
  by (simp add: quiet_def split: sum.splits)

lemma searchLoop_winner:
  "searchVideos (fetch (length sent) q) = Inr rs \<Longrightarrow> queryWinner h td m rs = Some w \<Longrightarrow>
   searchLoop h td m fetch None sent (q # qs) = Inr (Some w, sent @ [q])"
  by (simp add: searchLoop_found)

lemma searchLoop_skip:
  "k \<le> length qs \<Longrightarrow> \<forall>j<k. quiet h td m (fetch (length sent + j) (qs ! j)) \<Longrightarrow>
   searchLoop h td m fetch None sent qs
     = searchLoop h td m fetch None (sent @ take k qs) (drop k qs)"
proof (induction k arbitrary: sent qs)
  case 0
  then show ?case by simp
next
  case (Suc k)
  then obtain q rest where qs: "qs = q # rest" by (cases qs) auto
  from Suc.prems(2) have q0: "quiet h td m (fetch (length sent) q)"
    using qs by force
  have later: "\<forall>j<k. quiet h td m (fetch (length (sent @ [q]) + j) (rest ! j))"
  proof (intro allI impI)
    fix j assume "j < k"
    then have "Suc j < Suc k" by simp
    with Suc.prems(2) have "quiet h td m (fetch (length sent + Suc j) (qs ! Suc j))"
      by blast
    then show "quiet h td m (fetch (length (sent @ [q]) + j) (rest ! j))"
      using qs by simp
  qed
  from Suc.prems(1) qs have "k \<le> length rest" by simp
  from Suc.IH[OF this later] q0 show ?case
    using qs by (simp add: searchLoop_quiet del: searchLoop.simps)
qed

text \<open>
  C6. Let \<open>qs\<close> be the queries of match \<open>m\<close> and let the first \<open>k\<close> of them be answered
  without a clip being taken. If these are all queries, the match ends without a link:
  every query was sent, the store and the count of found links are unchanged, so the
  match has no link afterwards and a later run treats it as before. If instead query
  number \<open>k\<close> is answered with results whose winner is \<open>v\<close> of type \<open>t\<close> (standalone or
  broadcast), the link to \<open>v\<close> is stored and exactly the queries up to number \<open>k\<close> were
  sent: no query after the winning one is issued.
\<close>

theorem first_winner_ends_queries:
  assumes "qs = combinedSearches td (home m) (away m)"
    and "k \<le> length qs"
    and "\<forall>j<k. quiet h td m (fetch (length (issued st) + j) (qs ! j))"
  shows "(k = length qs \<longrightarrow>
            processMatch h td fetch st m = Inr (st\<lparr>issued := issued st @ qs\<rparr>))
       \<and> (k < length qs
            \<and> searchVideos (fetch (length (issued st) + k) (qs ! k)) = Inr rs
            \<and> queryWinner h td m rs = Some (v, t) \<longrightarrow>
            processMatch h td fetch st m =
              Inr \<lparr>links = storeLink (links st) (matchKey m) (newLink h v t),
                   foundCount = foundCount st + 1,
                   issued = issued st @ take (Suc k) qs\<rparr>)"
proof -
  have skip: "searchLoop h td m fetch None (issued st) qs
      = searchLoop h td m fetch None (issued st @ take k qs) (drop k qs)"
    using assms(2,3) by (rule searchLoop_skip)
  have none: "processMatch h td fetch st m = Inr (st\<lparr>issued := issued st @ qs\<rparr>)"
    if "k = length qs"
    using that skip assms(1) by (simp add: processMatch_def)
  have some: "processMatch h td fetch st m =
              Inr \<lparr>links = storeLink (links st) (matchKey m) (newLink h v t),
                   foundCount = foundCount st + 1,
                   issued = issued st @ take (Suc k) qs\<rparr>"
    if k: "k < length qs"
      and r: "searchVideos (fetch (length (issued st) + k) (qs ! k)) = Inr rs"
      and w: "queryWinner h td m rs = Some (v, t)"
  proof -
    from k have d: "drop k qs = (qs ! k) # drop (Suc k) qs"
      by (simp add: Cons_nth_drop_Suc)
    from k have len: "length (issued st @ take k qs) = length (issued st) + k"
      by simp
    have "searchLoop h td m fetch None (issued st @ take k qs) ((qs ! k) # drop (Suc k) qs)
            = Inr (Some (v, t), (issued st @ take k qs) @ [qs ! k])"
      using r w len by (intro searchLoop_winner[where rs = rs]) simp_all
    with skip d k have "searchLoop h td m fetch None (issued st) qs
            = Inr (Some (v, t), issued st @ take (Suc k) qs)"
      by (simp add: take_Suc_conv_app_nth)
    then show ?thesis using assms(1) by (simp add: processMatch_def)
  qed
  from none some show ?thesis by blast
qed

lemma queriesAB:
  "combinedSearches exTeams (home matchAB) (away matchAB)
     = [''FC A FC B'', ''FC A'', ''Club A'', ''FC B'']"
  by code_simp

theorem first_winner_ends_queries_witness:
  "processMatch utcHost exTeams secondQueryFetch startState matchAB =
     Inr \<lparr>links = storeLink (links startState) (matchKey matchAB)
                    (newLink utcHost highlightClip Standalone),
          foundCount = foundCount startState + 1,
          issued = [''FC A FC B'', ''FC A'']\<rparr>
   \<and> processMatch utcHost exTeams silentFetch startState matchAB =
       Inr (startState\<lparr>issued := [''FC A FC B'', ''FC A'', ''Club A'', ''FC B'']\<rparr>)"
proof -
  let ?qs = "[''FC A FC B'', ''FC A'', ''Club A'', ''FC B'']"
  have i: "issued startState = []" by (simp add: startState_def)
  have q0: "quiet utcHost exTeams matchAB (secondQueryFetch 0 ''FC A FC B'')" by code_simp
  have r1: "searchVideos (secondQueryFetch 1 ''FC A'') = Inr [broadcastClip, highlightClip, shortClip]"
    by code_simp
  have w1: "queryWinner utcHost exTeams matchAB [broadcastClip, highlightClip, shortClip]
              = Some (highlightClip, Standalone)"
    by code_simp
  have pre1: "\<forall>j<1. quiet utcHost exTeams matchAB
                 (secondQueryFetch (length (issued startState) + j) (?qs ! j))"
    using q0 by (simp add: i)
  have s: "quiet utcHost exTeams matchAB (silentFetch n q)" for n q
    by (simp add: silentFetch_def quiet_def searchVideos_def queryWinner_def)
  have pre4: "\<forall>j<4. quiet utcHost exTeams matchAB
                 (silentFetch (length (issued startState) + j) (?qs ! j))"
    using s by simp
  from first_winner_ends_queries[OF queriesAB[symmetric] _ pre1,
         of "[broadcastClip, highlightClip, shortClip]" highlightClip Standalone]
  have a: "processMatch utcHost exTeams secondQueryFetch startState matchAB =
     Inr \<lparr>links = storeLink (links startState) (matchKey matchAB)
                    (newLink utcHost highlightClip Standalone),
          foundCount = foundCount startState + 1,
          issued = [''FC A FC B'', ''FC A'']\<rparr>"
    using r1 w1 by (simp add: i)
  from first_winner_ends_queries[OF queriesAB[symmetric] _ pre4, of _ _ _]
  have b: "processMatch utcHost exTeams silentFetch startState matchAB =
       Inr (startState\<lparr>issued := [''FC A FC B'', ''FC A'', ''Club A'', ''FC B'']\<rparr>)"
    by (simp add: i)
  from a b show ?thesis by simp
qed

text \<open>
  C2, as the code has it. A response that is not ok gives the empty result list for
  its query, and the loop goes on with the next query. A rejected \<^verbatim>\<open>fetch\<close> is not
  turned into a result list: it leaves \<^verbatim>\<open>searchVideos\<close> and the loop over the queries
  as an uncaught rejection, and a rejection that leaves the queries of a match leaves
  the loop over the matches, which ends the run.
\<close>

theorem search_failures:
  "(fetch (length sent) q = NotOk \<longrightarrow>
      searchVideos (fetch (length sent) q) = Inr []
      \<and> searchLoop h td m fetch None sent (q # qs) = searchLoop h td m fetch None (sent @ [q]) qs)
   \<and> (fetch (length sent) q = FetchRejects \<longrightarrow>
      searchVideos (fetch (length sent) q) = Inl Uncaught
      \<and> searchLoop h td m fetch None sent (q # qs) = Inl Uncaught)
   \<and> (searchLoop h td m fetch None (issued st) (combinedSearches td (home m) (away m)) = Inl e \<longrightarrow>
      crawlLoop h td fetch st (m # rest) = Inl e)"
  by (simp add: searchVideos_def queryWinner_def processMatch_def)

theorem search_failures_witness:
  "secondQueryFetch (length ([] :: string list)) ''FC A FC B'' = NotOk
   \<and> searchLoop utcHost exTeams matchAB secondQueryFetch None [] [''FC A FC B'', ''FC A'']
       = searchLoop utcHost exTeams matchAB secondQueryFetch None [''FC A FC B''] [''FC A'']
   \<and> rejectFirstFetch (length (issued startState)) ''FC A FC B'' = FetchRejects
   \<and> searchLoop utcHost exTeams matchAB rejectFirstFetch None (issued startState)
       (combinedSearches exTeams (home matchAB) (away matchAB)) = Inl Uncaught
   \<and> crawlLoop utcHost exTeams rejectFirstFetch startState [matchAB, matchCD] = Inl Uncaught"
proof -
  have n: "secondQueryFetch (length ([] :: string list)) ''FC A FC B'' = NotOk"
    by (simp add: secondQueryFetch_def)
  have r: "rejectFirstFetch (length (issued startState)) ''FC A FC B'' = FetchRejects"
    by (simp add: rejectFirstFetch_def startState_def)
  from search_failures[of secondQueryFetch "[]" "''FC A FC B''" utcHost exTeams matchAB "[''FC A'']"] n
  have a: "searchLoop utcHost exTeams matchAB secondQueryFetch None [] [''FC A FC B'', ''FC A'']
       = searchLoop utcHost exTeams matchAB secondQueryFetch None [''FC A FC B''] [''FC A'']"
    by (simp del: searchLoop.simps)
  from search_failures[of rejectFirstFetch "issued startState" "''FC A FC B''" utcHost exTeams matchAB
         "[''FC A'', ''Club A'', ''FC B'']"] r
  have b: "searchLoop utcHost exTeams matchAB rejectFirstFetch None (issued startState)
       (combinedSearches exTeams (home matchAB) (away matchAB)) = Inl Uncaught"
    unfolding queriesAB by blast
  from search_failures[of rejectFirstFetch "[]" "[]" utcHost exTeams matchAB "[]"
         startState Uncaught "[matchCD]"] b
  have c: "crawlLoop utcHost exTeams rejectFirstFetch startState [matchAB, matchCD] = Inl Uncaught"
    by blast
  from n a r b c show ?thesis by (intro conjI)
qed

text \<open>
  C2, as stated, fails for a transport failure: when the first \<^verbatim>\<open>fetch\<close> of a run is
  rejected, \<^verbatim>\<open>searchVideos\<close> does not return the empty list and the run ends with
  \<^verbatim>\<open>process.exit(1)\<close>, although every later query would have been answered.
\<close>

theorem transport_failure_ends_run:
  "searchVideos (rejectFirstFetch 0 ''FC A FC B'') = Inl Uncaught
   \<and> crawl utcHost (Parsed exTeams) (Parsed exPlan) Missing (Some (Num 5)) rejectFirstFetch
       = Inl Uncaught"
proof -
  have c: "getMatchesToSearch utcHost exPlan \<lparr>lastUpdated = now utcHost, linkMatches = Map.empty\<rparr>
             (Some (Num 5)) = [matchAB, matchCD]"
    by code_simp
  have s: "searchVideos (rejectFirstFetch 0 ''FC A FC B'') = Inl Uncaught"
    by (simp add: rejectFirstFetch_def searchVideos_def)
  have "processMatch utcHost exTeams rejectFirstFetch
          \<lparr>links = \<lparr>lastUpdated = now utcHost, linkMatches = Map.empty\<rparr>,
           foundCount = 0, issued = []\<rparr> matchAB = Inl Uncaught"
    by (simp add: processMatch_def queriesAB s)
  then show ?thesis using s
    by (simp add: crawl_def loadJSON_def c)
qed

text \<open>
  C1: the blacklist is defined and never consulted. The clip titled
  ``FC A: Trainer im Interview'' is blacklisted, and as the only result of a query it is
  the query's winner and is stored as the link of the match.
\<close>

theorem blacklisted_clip_is_taken:
  "\<not> isNotBlacklisted interviewClip
   \<and> queryWinner utcHost exTeams matchAB [interviewClip] = Some (interviewClip, Standalone)
   \<and> processMatch utcHost exTeams interviewFetch startState matchAB =
       Inr \<lparr>links = storeLink (links startState) ''5_FC A - FC B''
                      (newLink utcHost interviewClip Standalone),
            foundCount = 1, issued = [''FC A FC B'']\<rparr>"
proof -
  have b: "\<not> isNotBlacklisted interviewClip" by code_simp
  have w: "queryWinner utcHost exTeams matchAB [interviewClip] = Some (interviewClip, Standalone)"
    by code_simp
  have k: "matchKey matchAB = ''5_FC A - FC B''" by (simp add: matchAB_def toCandidate_def)
  have "processMatch utcHost exTeams interviewFetch startState matchAB =
       Inr \<lparr>links = storeLink (links startState) ''5_FC A - FC B''
                      (newLink utcHost interviewClip Standalone),
            foundCount = 1, issued = [''FC A FC B'']\<rparr>"
    by (simp add: processMatch_def queriesAB startState_def interviewFetch_def searchVideos_def
          w k searchLoop_found)
  with b w show ?thesis by simp
qed

section \<open>A run that could not load links.json\<close>

lemma hasLink_fresh: "\<not> hasLink (freshStore h) k"
  by (simp add: hasLink_def freshStore_def)

lemma matchLoop_fresh_normal:
  "matchLoop h (freshStore h) None md fs =
     map (\<lambda>f. toCandidate md f (makeKey md (home f) (away f)))
       (filter (passesGate h None md) fs)"
  by (induction fs) (simp_all add: Let_def hasLink_fresh passesGate_def)

lemma matchLoop_fresh_test:
  "matchLoop h (freshStore h) (Some n) md fs =
     map (\<lambda>f. toCandidate md f (makeKey md (home f) (away f))) fs"
  by (induction fs) (simp_all add: Let_def hasLink_fresh)

lemma matchdayLoop_fresh:
  "matchdayLoop h (freshStore h) t mds = concat (map (gatedOf h t) mds)"
proof (induction mds)
  case Nil
  show ?case by simp
next
  case (Cons md mds)
  show ?case
  proof (cases t)
    case None
    then show ?thesis
      using Cons by (simp add: otherMatchday_def gatedOf_def matchLoop_fresh_normal)
  next
    case (Some n)
    then show ?thesis
      using Cons by (simp add: gatedOf_def passesGate_def matchLoop_fresh_test)
  qed
qed

lemma matchKey_toCandidate: "matchKey (toCandidate md f k) = k"
  by (simp add: toCandidate_def)

lemma matchLoop_filter:
  "matchLoop h ls t md fs =
     filter (\<lambda>c. \<not> hasLink ls (matchKey c)) (matchLoop h (freshStore h) t md fs)"
  by (induction fs) (auto simp add: Let_def hasLink_fresh matchKey_toCandidate)

lemma matchdayLoop_filter:
  "matchdayLoop h ls t mds =
     filter (\<lambda>c. \<not> hasLink ls (matchKey c)) (matchdayLoop h (freshStore h) t mds)"
  by (induction mds) (simp_all add: matchLoop_filter[of h ls])

text \<open>
  The store enters the choice of the matches only as a filter on their keys: what is
  searched from a store is what is searched from the fresh store, without the matches
  that have a link.
\<close>

lemma getMatchesToSearch_filter:
  "getMatchesToSearch h plan ls t =
     filter (\<lambda>c. \<not> hasLink ls (matchKey c)) (concat (map (gatedOf h t) (matchdays plan)))"
  by (simp add: getMatchesToSearch_def matchdayLoop_filter[of h ls] matchdayLoop_fresh)

lemma processMatch_links:
  "processMatch h td fetch st m = Inr st' \<Longrightarrow>
     foundCount st \<le> foundCount st'
     \<and> dom (linkMatches (links st')) \<subseteq> insert (matchKey m) (dom (linkMatches (links st)))
     \<and> dom (linkMatches (links st)) \<subseteq> dom (linkMatches (links st'))
     \<and> (foundCount st < foundCount st' \<longrightarrow> matchKey m \<in> dom (linkMatches (links st')))"
  by (auto simp add: processMatch_def storeLink_def
           split: sum.splits option.splits prod.splits if_splits)

lemma crawlLoop_links:
  "crawlLoop h td fetch st ms = Inr st' \<Longrightarrow>
     foundCount st \<le> foundCount st'
     \<and> dom (linkMatches (links st')) \<subseteq> matchKey ` set ms \<union> dom (linkMatches (links st))
     \<and> dom (linkMatches (links st)) \<subseteq> dom (linkMatches (links st'))
     \<and> (foundCount st < foundCount st' \<longrightarrow> dom (linkMatches (links st')) \<noteq> {})"
proof (induction ms arbitrary: st)
  case Nil
  then show ?case by simp
next
  case (Cons m ms)
  from Cons.prems obtain st1 where
    p: "processMatch h td fetch st m = Inr st1" and l: "crawlLoop h td fetch st1 ms = Inr st'"
    by (auto split: sum.splits)
  from processMatch_links[OF p] have a1: "foundCount st \<le> foundCount st1"
    and a2: "dom (linkMatches (links st1)) \<subseteq> insert (matchKey m) (dom (linkMatches (links st)))"
    and a3: "dom (linkMatches (links st)) \<subseteq> dom (linkMatches (links st1))"
    and a4: "foundCount st < foundCount st1 \<longrightarrow> matchKey m \<in> dom (linkMatches (links st1))"
    by blast+
  from Cons.IH[OF l] have b1: "foundCount st1 \<le> foundCount st'"
    and b2: "dom (linkMatches (links st')) \<subseteq> matchKey ` set ms \<union> dom (linkMatches (links st1))"
    and b3: "dom (linkMatches (links st1)) \<subseteq> dom (linkMatches (links st'))"
    and b4: "foundCount st1 < foundCount st' \<longrightarrow> dom (linkMatches (links st')) \<noteq> {}"
    by blast+
  have c1: "foundCount st \<le> foundCount st'" using a1 b1 by simp
  have c2: "dom (linkMatches (links st')) \<subseteq> matchKey ` set (m # ms) \<union> dom (linkMatches (links st))"
  proof -
    have "matchKey ` set (m # ms) = insert (matchKey m) (matchKey ` set ms)" by simp
    with a2 b2 show ?thesis by blast
  qed
  have c3: "dom (linkMatches (links st)) \<subseteq> dom (linkMatches (links st'))"
    using a3 b3 by blast
  have c4: "foundCount st < foundCount st' \<longrightarrow> dom (linkMatches (links st')) \<noteq> {}"
  proof
    assume "foundCount st < foundCount st'"
    then consider "foundCount st < foundCount st1" | "foundCount st1 < foundCount st'"
      by linarith
    then show "dom (linkMatches (links st')) \<noteq> {}"
    proof cases
      case 1
      with a4 b3 show ?thesis by blast
    next
      case 2
      with b4 show ?thesis by blast
    qed
  qed
  from c1 c2 c3 c4 show ?case by blast
qed

lemma crawl_fresh:
  "loadJSON linksFile = None \<Longrightarrow>
   crawl h tf sf linksFile t fetch = crawl h tf sf (Parsed (freshStore h)) t fetch"
  by (cases linksFile; cases tf; cases sf) (simp_all add: crawl_def loadJSON_def freshStore_def)

lemma crawl_written:
  assumes run: "crawl h (Parsed td) (Parsed plan) (Parsed (freshStore h)) t fetch = Inr r"
    and w: "written r = Some s"
  shows "dom (linkMatches s) \<noteq> {}
       \<and> dom (linkMatches s) \<subseteq> matchKey ` set (getMatchesToSearch h plan (freshStore h) t)"
proof -
  let ?ms = "getMatchesToSearch h plan (freshStore h) t"
  let ?st0 = "\<lparr>links = freshStore h, foundCount = 0, issued = []\<rparr>"
  from run w have ne: "?ms \<noteq> []"
    by (auto simp add: crawl_def loadJSON_def Let_def split: if_splits)
  with run obtain st' where l: "crawlLoop h td fetch ?st0 ?ms = Inr st'"
    and r: "r = \<lparr>written = (if foundCount st' > 0
                               then Some ((links st')\<lparr>lastUpdated := now h\<rparr>) else None),
                  queries = issued st'\<rparr>"
    by (auto simp add: crawl_def loadJSON_def Let_def split: sum.splits)
  from r w have pos: "0 < foundCount st'" and s: "s = (links st')\<lparr>lastUpdated := now h\<rparr>"
    by (auto split: if_splits)
  from crawlLoop_links[OF l] pos
  have "dom (linkMatches (links st')) \<noteq> {}"
    and "dom (linkMatches (links st')) \<subseteq> matchKey ` set ?ms \<union> dom (linkMatches (freshStore h))"
    by simp_all
  then show ?thesis using s by (simp add: freshStore_def)
qed

text \<open>
  C10, as the code has it. A links.json that cannot be read or parsed loads as
  \<^verbatim>\<open>null\<close>, like a missing one, and the run is the run from the fresh empty store. From
  that store no match is left out for having a link: the matches to search are those
  that pass the gate of the mode (in test mode the matches of the chosen matchday, in
  normal mode the matches whose search window contains now). If the run writes
  links.json, the store it writes is not empty and holds links of matches searched in
  this run only.
\<close>

theorem corrupt_store_like_absent:
  "loadJSON (Unparseable :: link_store json_file) = None
   \<and> crawl h tf sf Unparseable t fetch = crawl h tf sf Missing t fetch
   \<and> crawl h tf sf Unparseable t fetch = crawl h tf sf (Parsed (freshStore h)) t fetch
   \<and> getMatchesToSearch h plan (freshStore h) t = concat (map (gatedOf h t) (matchdays plan))
   \<and> (crawl h (Parsed td) (Parsed plan) Unparseable t fetch = Inr r \<and> written r = Some s \<longrightarrow>
        dom (linkMatches s) \<noteq> {}
        \<and> dom (linkMatches s) \<subseteq> matchKey ` set (getMatchesToSearch h plan (freshStore h) t))"
proof -
  have u: "loadJSON (Unparseable :: link_store json_file) = None"
    and m: "loadJSON (Missing :: link_store json_file) = None"
    by (simp_all add: loadJSON_def)
  have e1: "crawl h tf sf Unparseable t fetch = crawl h tf sf (Parsed (freshStore h)) t fetch"
    for tf sf
    using u by (rule crawl_fresh)
  have e2: "crawl h tf sf Missing t fetch = crawl h tf sf (Parsed (freshStore h)) t fetch"
    using m by (rule crawl_fresh)
  have g: "getMatchesToSearch h plan (freshStore h) t = concat (map (gatedOf h t) (matchdays plan))"
    by (simp add: getMatchesToSearch_def matchdayLoop_fresh)
  have w: "dom (linkMatches s) \<noteq> {}
        \<and> dom (linkMatches s) \<subseteq> matchKey ` set (getMatchesToSearch h plan (freshStore h) t)"
    if "crawl h (Parsed td) (Parsed plan) Unparseable t fetch = Inr r" and "written r = Some s"
    using that crawl_written[of h td plan t fetch r s] by (simp add: e1)
  from u e1 e2 g w show ?thesis by simp
qed

theorem corrupt_store_like_absent_witness:
  "crawl utcHost (Parsed exTeams) (Parsed exPlan) Unparseable (Some (Num 5)) secondQueryFetch
     = crawl utcHost (Parsed exTeams) (Parsed exPlan) Missing (Some (Num 5)) secondQueryFetch
   \<and> getMatchesToSearch utcHost exPlan (freshStore utcHost) (Some (Num 5)) = [matchAB, matchCD]
   \<and> (case crawl utcHost (Parsed exTeams) (Parsed exPlan) Unparseable (Some (Num 5))
             secondQueryFetch of
        Inl e \<Rightarrow> False
      | Inr r \<Rightarrow>
          (case written r of
             None \<Rightarrow> False
           | Some s \<Rightarrow> dom (linkMatches s) \<noteq> {}
                \<and> dom (linkMatches s) \<subseteq> matchKey ` set [matchAB, matchCD]))"
proof -
  have g: "concat (map (gatedOf utcHost (Some (Num 5))) (matchdays exPlan)) = [matchAB, matchCD]"
    by code_simp
  have run: "(case crawl utcHost (Parsed exTeams) (Parsed exPlan) Unparseable (Some (Num 5))
                   secondQueryFetch of
                Inl e \<Rightarrow> False
              | Inr r \<Rightarrow> (case written r of None \<Rightarrow> False | Some s \<Rightarrow> True))"
    by code_simp
  then obtain r s where
    r: "crawl utcHost (Parsed exTeams) (Parsed exPlan) Unparseable (Some (Num 5)) secondQueryFetch
          = Inr r"
    and s: "written r = Some s"
    by (auto split: sum.splits option.splits)
  note inst = corrupt_store_like_absent[of utcHost "Parsed exTeams" "Parsed exPlan"
      "Some (Num 5)" secondQueryFetch exPlan exTeams r s]
  from inst have c: "getMatchesToSearch utcHost exPlan (freshStore utcHost) (Some (Num 5))
                      = [matchAB, matchCD]"
    unfolding g by blast
  from inst r s have d: "dom (linkMatches s) \<noteq> {}
        \<and> dom (linkMatches s) \<subseteq> matchKey ` set [matchAB, matchCD]"
    unfolding c by blast
  from inst have e: "crawl utcHost (Parsed exTeams) (Parsed exPlan) Unparseable (Some (Num 5))
          secondQueryFetch
     = crawl utcHost (Parsed exTeams) (Parsed exPlan) Missing (Some (Num 5)) secondQueryFetch"
    by blast
  have f: "(case crawl utcHost (Parsed exTeams) (Parsed exPlan) Unparseable (Some (Num 5))
             secondQueryFetch of
        Inl e \<Rightarrow> False
      | Inr r \<Rightarrow>
          (case written r of
             None \<Rightarrow> False
           | Some s \<Rightarrow> dom (linkMatches s) \<noteq> {}
                \<and> dom (linkMatches s) \<subseteq> matchKey ` set [matchAB, matchCD]))"
    unfolding r using d by (simp add: s)
  from e c f show ?thesis by (intro conjI)
qed

text \<open>
  C10, as stated, fails in normal mode ten days after the match: with an unparseable
  links.json no match enters the list of matches to search, although the store is fresh,
  and nothing is written, so the old file stays as it is.
\<close>

theorem corrupt_store_nothing_reentered:
  "getMatchesToSearch lateHost exPlan (freshStore lateHost) None = []
   \<and> crawl lateHost (Parsed exTeams) (Parsed exPlan) Unparseable None secondQueryFetch
       = Inr \<lparr>written = None, queries = []\<rparr>"
proof -
  have c: "getMatchesToSearch lateHost exPlan (freshStore lateHost) None = []"
    by code_simp
  then show ?thesis
    by (simp add: crawl_def loadJSON_def freshStore_def)
qed

section \<open>The date window\<close>

lemma setHours0_fixed:
  "tzaOfUtc h = (\<lambda>t. c) \<Longrightarrow> tzaOfLocal h = (\<lambda>t. c) \<Longrightarrow>
   setHours0 h t = localDayOf h t * msPerDay - c"
  by (simp add: setHours0_def localDayOf_def Let_def)

lemma day_window:
  "(b * msPerDay - c \<le> a * msPerDay - c
      \<and> (a * msPerDay - c) - (b * msPerDay - c) \<le> 2 * msPerDay)
     \<longleftrightarrow> (b \<le> a \<and> a - b \<le> 2)"
  unfolding msPerDay_def by arith

text \<open>
  On a host whose local time has one fixed offset from UTC, the date check accepts a
  clip exactly when its date string is present, both dates are valid, and the local day
  of the clip is the local day of the match or one of the two days after it.
\<close>

lemma date_window_fixed_offset:
  assumes "tzaOfUtc h = (\<lambda>t. c)" and "tzaOfLocal h = (\<lambda>t. c)"
  shows "isVideoDateValid h video matchDate =
     (case videoDateStr video of
        None \<Rightarrow> False
      | Some s \<Rightarrow> s \<noteq> [] \<and>
          (case (dateParse h s, dateParse h matchDate) of
             (Some v, Some md) \<Rightarrow>
               localDayOf h md \<le> localDayOf h v \<and> localDayOf h v - localDayOf h md \<le> 2
           | _ \<Rightarrow> False))"
proof -
  have w: "(setHours0 h md \<le> setHours0 h v \<and> setHours0 h v - setHours0 h md \<le> 2 * msPerDay)
        \<longleftrightarrow> (localDayOf h md \<le> localDayOf h v \<and> localDayOf h v - localDayOf h md \<le> 2)"
    for v md
    unfolding setHours0_fixed[OF assms] by (rule day_window)
  show ?thesis
    unfolding isVideoDateValid_def videoDateStr_def[symmetric] Let_def
    by (cases "videoDateStr video")
       (simp_all add: truthy_def orEmpty_def w split: option.splits)
qed

lemma date_window_boundaries_utc:
  "isVideoDateValid utcHost (highlightClip\<lparr>dateOf := Some ''2024-03-10''\<rparr>) ''2024-03-10''
   \<and> isVideoDateValid utcHost (highlightClip\<lparr>dateOf := Some ''2024-03-12''\<rparr>) ''2024-03-10''
   \<and> \<not> isVideoDateValid utcHost (highlightClip\<lparr>dateOf := Some ''2024-03-13''\<rparr>) ''2024-03-10''
   \<and> \<not> isVideoDateValid utcHost (highlightClip\<lparr>dateOf := Some ''2024-03-09''\<rparr>) ''2024-03-10''
   \<and> \<not> isVideoDateValid utcHost (highlightClip\<lparr>dateOf := None\<rparr>) ''2024-03-10''
   \<and> isVideoDateValid utcHost
        (highlightClip\<lparr>dateOf := Some [], validFrom := None, publishedDate := Some ''2024-03-12''\<rparr>)
        ''2024-03-10''"
  by code_simp

text \<open>
  C7 on a host on Swiss time. The match is dated 2024-10-26 and the clip 2024-10-28 at
  10:00 local time, two local days later. Summer time ends in between, the two local
  midnights are 49 hours apart, and the clip is rejected.
\<close>

theorem summer_time_end_rejects_second_day:
  "dateParse zurichHost (date matchDst) = Some 1729900800000
   \<and> videoDateStr dstClip = Some ''2024-10-28T10:00:00+01:00''
   \<and> dateParse zurichHost ''2024-10-28T10:00:00+01:00'' = Some 1730106000000
   \<and> localDayOf zurichHost 1730106000000 - localDayOf zurichHost 1729900800000 = 2
   \<and> setHours0 zurichHost 1730106000000 - setHours0 zurichHost 1729900800000 = 49 * 3600000
   \<and> \<not> isVideoDateValid zurichHost dstClip (date matchDst)
   \<and> \<not> isAcceptable zurichHost exTeams matchDst dstClip"
  by code_simp

end
